theory Spec2Isabelle
  imports Complex_Main "HOL-Library.AList"
begin

section \<open>Data model (app/models.py)\<close>

text \<open>
  The enums of \<^verbatim>\<open>models.py\<close> are datatypes and its dataclasses are records.
  Python floats (confidences, clock readings) are read as the real numbers they
  denote; rounding is not modelled. A \<^verbatim>\<open>Dict[str, Any]\<close> is an association list
  in insertion order whose values are kept as strings. The field \<^verbatim>\<open>id\<close> of a job is
  called \<open>job_id\<close>, the field \<^verbatim>\<open>type\<close> of a tool call \<open>call_type\<close> and the field
  \<^verbatim>\<open>end\<close> of an event \<open>end_time\<close>.
\<close>

datatype Provider = OPENAI | OPENROUTER | QWEN_LOCAL

datatype JobStatus = PENDING | RUNNING | SUCCEEDED | FAILED | NEEDS_REVIEW

datatype ReviewDecision = APPROVED | REJECTED

record ToolCall =
  call_type :: string
  payload :: "(string \<times> string) list"
  needs_approval :: bool

record ParsedEvent =
  title :: string
  weekday :: int
  start :: string
  end_time :: string
  location :: "string option"
  assignees :: "string list"
  confidence :: real
  tool_calls :: "ToolCall list"

record ParseJob =
  job_id :: string
  org_id :: string
  creator_id :: string
  provider :: Provider
  source_url :: string
  created_at :: int
  status :: JobStatus
  events :: "ParsedEvent list"
  error :: "string option"
  metadata :: "(string \<times> string) list"

text \<open>The three methods of \<^verbatim>\<open>ParseJob\<close>, as functions from the object to the mutated object.\<close>

definition mark_running :: "ParseJob \<Rightarrow> ParseJob" where
  "mark_running job = job\<lparr>status := RUNNING\<rparr>"

definition mark_failed :: "string \<Rightarrow> ParseJob \<Rightarrow> ParseJob" where
  "mark_failed message job = job\<lparr>status := FAILED, error := Some message\<rparr>"

definition mark_succeeded :: "ParsedEvent list \<Rightarrow> ParseJob \<Rightarrow> ParseJob" where
  "mark_succeeded evs job =
     (let needs_review = list_ex (\<lambda>event. confidence event < 0.6) evs
      in job\<lparr>events := evs,
              status := (if needs_review then NEEDS_REVIEW else SUCCEEDED)\<rparr>)"

section \<open>The job store (app/store.py) over an explicit object heap\<close>

text \<open>
  Python dataclass instances are shared mutable objects, so the store is modelled over a
  heap: \<open>objects\<close> gives the \<^verbatim>\<open>ParseJob\<close> behind each reference, \<open>next_ref\<close> is the next
  unused reference, and \<open>jobs\<close> is the dictionary \<^verbatim>\<open>ParseJobStore._jobs\<close> from job id to
  reference, in insertion order. A job handed to or returned by an operation is a
  reference. The lock serialises the operations; each is one atomic state transformer.
\<close>

type_synonym ref = nat

record memory =
  objects :: "ref \<Rightarrow> ParseJob"
  next_ref :: ref
  jobs :: "(string \<times> ref) list"

text \<open>An in-place method call \<^verbatim>\<open>job.f(...)\<close> on the object behind a reference.\<close>

definition mutate :: "memory \<Rightarrow> ref \<Rightarrow> (ParseJob \<Rightarrow> ParseJob) \<Rightarrow> memory" where
  "mutate m r f = m\<lparr>objects := (objects m)(r := f (objects m r))\<rparr>"

text \<open>
  \<^verbatim>\<open>create_job\<close>: the fresh uuid4 string and the current UTC instant come from the
  environment and are parameters here.
\<close>

definition create_job ::
  "memory \<Rightarrow> string \<Rightarrow> string \<Rightarrow> Provider \<Rightarrow> string \<Rightarrow> string \<Rightarrow> int \<Rightarrow> ref \<times> memory" where
  "create_job m org creator prov url fresh_id now_utc =
     (let r = next_ref m;
          job = \<lparr>job_id = fresh_id, org_id = org, creator_id = creator, provider = prov,
                 source_url = url, created_at = now_utc, status = PENDING, events = [],
                 error = None, metadata = []\<rparr>
      in (r, m\<lparr>objects := (objects m)(r := job), next_ref := Suc r,
               jobs := AList.update fresh_id r (jobs m)\<rparr>))"

definition get :: "memory \<Rightarrow> string \<Rightarrow> ref option" where
  "get m jid = map_of (jobs m) jid"

definition list_for_org :: "memory \<Rightarrow> string \<Rightarrow> ref list" where
  "list_for_org m org = filter (\<lambda>r. org_id (objects m r) = org) (map snd (jobs m))"

definition update :: "memory \<Rightarrow> ref \<Rightarrow> memory" where
  "update m r = m\<lparr>jobs := AList.update (job_id (objects m r)) r (jobs m)\<rparr>"

definition mark_success :: "memory \<Rightarrow> ref \<Rightarrow> ParsedEvent list \<Rightarrow> ref \<times> memory" where
  "mark_success m r evs = (r, update (mutate m r (mark_succeeded evs)) r)"

definition mark_failure :: "memory \<Rightarrow> ref \<Rightarrow> string \<Rightarrow> ref \<times> memory" where
  "mark_failure m r err = (r, update (mutate m r (mark_failed err)) r)"

text \<open>The record a job id is stored under, read through the dictionary and the heap.\<close>

definition stored_record :: "memory \<Rightarrow> string \<Rightarrow> ParseJob option" where
  "stored_record m jid = map_option (objects m) (map_of (jobs m) jid)"

section \<open>Review (app/service.py)\<close>

definition review_job :: "memory \<Rightarrow> string \<Rightarrow> ReviewDecision \<Rightarrow> ref option \<times> memory" where
  "review_job m jid decision =
     (case get m jid of
        None \<Rightarrow> (None, m)
      | Some r \<Rightarrow>
          if status (objects m r) \<notin> {SUCCEEDED, NEEDS_REVIEW} then (Some r, m)
          else
            let m1 = (if decision = APPROVED
                      then mutate m r (\<lambda>job. job\<lparr>metadata := AList.update ''review'' ''approved'' (metadata job),
                                                 status := SUCCEEDED\<rparr>)
                      else mutate m r (\<lambda>job. job\<lparr>metadata := AList.update ''review'' ''rejected'' (metadata job),
                                                 status := FAILED\<rparr>))
            in (Some r, update m1 r))"

section \<open>The provider router (app/providers.py)\<close>

text \<open>
  The exception classes raised by \<^verbatim>\<open>parse_with\<close>. \<open>ValueError\<close> is the specification's
  INVALID_PROVIDER, \<open>ProviderUnavailableError\<close> its PROVIDER_UNAVAILABLE,
  \<open>ProviderQuotaExceededError\<close> its QUOTA_EXCEEDED, \<open>ProviderConcurrencyLimitError\<close> its
  CONCURRENCY_LIMIT and \<open>ProviderCircuitOpenError\<close> its CIRCUIT_OPEN. \<open>ClientError\<close> is an
  exception of the provider client, re-raised unchanged, and \<open>KeyError\<close> is the failed
  dictionary subscript. Exception messages are not modelled.
\<close>

datatype router_error =
    ValueError
  | KeyError
  | ProviderUnavailableError
  | ProviderQuotaExceededError
  | ProviderConcurrencyLimitError
  | ProviderCircuitOpenError
  | ClientError string

record ProviderRollout =
  allow_by_default :: bool
  allowlist :: "string set"
  blocklist :: "string set"

definition is_allowed :: "ProviderRollout \<Rightarrow> string \<Rightarrow> bool" where
  "is_allowed ro org =
     (if allow_by_default ro then org \<notin> blocklist ro else org \<in> allowlist ro)"

text \<open>
  The client is an opaque handle; what it does when invoked is supplied by the
  environment. \<^verbatim>\<open>cooldown_seconds\<close> is annotated \<^verbatim>\<open>int\<close> but the tests register 0.05, so it
  is a real here.
\<close>

record ProviderConfig =
  client :: nat
  enabled :: bool
  quota_per_window :: "int option"
  window_seconds :: int
  org_quotas :: "(string \<times> int) list option"
  concurrency_limit :: "int option"
  failure_threshold :: int
  cooldown_seconds :: real
  rollout :: "ProviderRollout option"

text \<open>The dataclass defaults of \<^verbatim>\<open>ProviderConfig\<close>.\<close>

definition default_config :: "nat \<Rightarrow> ProviderConfig" where
  "default_config c =
     \<lparr>client = c, enabled = True, quota_per_window = None, window_seconds = 60,
      org_quotas = None, concurrency_limit = None, failure_threshold = 3,
      cooldown_seconds = 30, rollout = None\<rparr>"

record ProviderState =
  window_started_at :: real
  window_count :: int
  org_counts :: "(string \<times> int) list"
  inflight :: int
  failure_count :: int
  circuit_open_until :: "real option"

text \<open>\<^verbatim>\<open>ProviderState(window_started_at=now)\<close> with the dataclass defaults.\<close>

definition fresh_state :: "real \<Rightarrow> ProviderState" where
  "fresh_state now =
     \<lparr>window_started_at = now, window_count = 0, org_counts = [], inflight = 0,
      failure_count = 0, circuit_open_until = None\<rparr>"

record ProviderRouter =
  configs :: "Provider \<Rightarrow> ProviderConfig option"
  state :: "Provider \<Rightarrow> ProviderState option"

definition new_router :: ProviderRouter where
  "new_router = \<lparr>configs = (\<lambda>_. None), state = (\<lambda>_. None)\<rparr>"

text \<open>
  \<^verbatim>\<open>register\<close>: the keyword arguments together with the client make the config; the
  reading of the monotonic clock is a parameter.
\<close>

definition register :: "ProviderRouter \<Rightarrow> Provider \<Rightarrow> ProviderConfig \<Rightarrow> real \<Rightarrow> ProviderRouter" where
  "register r p cfg now =
     r\<lparr>configs := (configs r)(p \<mapsto> cfg), state := (state r)(p \<mapsto> fresh_state now)\<rparr>"

text \<open>
  Line 99, \<^verbatim>\<open>state.circuit_open_until and now < state.circuit_open_until\<close>: the first
  conjunct is Python truthiness, false for \<^verbatim>\<open>None\<close> and for the float 0.0.
\<close>

definition circuit_open :: "ProviderState \<Rightarrow> real \<Rightarrow> bool" where
  "circuit_open st now =
     (case circuit_open_until st of None \<Rightarrow> False | Some u \<Rightarrow> u \<noteq> 0 \<and> now < u)"

text \<open>\<^verbatim>\<open>state.org_counts.get(org_id, 0)\<close>.\<close>

definition org_count :: "ProviderState \<Rightarrow> string \<Rightarrow> int" where
  "org_count st org = (case map_of (org_counts st) org of None \<Rightarrow> 0 | Some n \<Rightarrow> n)"

text \<open>Lines 101 to 104: the rollout, when set, does not allow the organisation.\<close>

definition rollout_denies :: "ProviderConfig \<Rightarrow> string \<Rightarrow> bool" where
  "rollout_denies cfg org =
     (case rollout cfg of None \<Rightarrow> False | Some ro \<Rightarrow> \<not> is_allowed ro org)"

text \<open>Lines 106 to 109: the window counters are reset when the window has expired.\<close>

definition window_expired :: "ProviderConfig \<Rightarrow> ProviderState \<Rightarrow> real \<Rightarrow> bool" where
  "window_expired cfg st now = (now - window_started_at st \<ge> real_of_int (window_seconds cfg))"

definition reset_window :: "ProviderState \<Rightarrow> real \<Rightarrow> ProviderState" where
  "reset_window st now = st\<lparr>window_started_at := now, window_count := 0, org_counts := []\<rparr>"

definition roll_window :: "ProviderConfig \<Rightarrow> ProviderState \<Rightarrow> real \<Rightarrow> ProviderState" where
  "roll_window cfg st now = (if window_expired cfg st now then reset_window st now else st)"

text \<open>
  The conditions of lines 110, 112 to 114 and 118. \<^verbatim>\<open>if config.org_quotas\<close> is false for
  \<^verbatim>\<open>None\<close> and for the empty dictionary.
\<close>

definition global_quota_exceeded :: "ProviderConfig \<Rightarrow> ProviderState \<Rightarrow> bool" where
  "global_quota_exceeded cfg st =
     (case quota_per_window cfg of None \<Rightarrow> False | Some q \<Rightarrow> window_count st \<ge> q)"

definition org_quota_exceeded :: "ProviderConfig \<Rightarrow> ProviderState \<Rightarrow> string \<Rightarrow> bool" where
  "org_quota_exceeded cfg st org =
     (case org_quotas cfg of
        None \<Rightarrow> False
      | Some oq \<Rightarrow> oq \<noteq> [] \<and>
          (case map_of oq org of None \<Rightarrow> False | Some q \<Rightarrow> org_count st org \<ge> q))"

definition at_concurrency_limit :: "ProviderConfig \<Rightarrow> ProviderState \<Rightarrow> bool" where
  "at_concurrency_limit cfg st =
     (case concurrency_limit cfg of None \<Rightarrow> False | Some l \<Rightarrow> inflight st \<ge> l)"

text \<open>Lines 123 to 125, the counters of an admitted request.\<close>

definition count_admission :: "ProviderState \<Rightarrow> string \<Rightarrow> ProviderState" where
  "count_admission st org =
     st\<lparr>window_count := window_count st + 1,
        org_counts := AList.update org (org_count st org + 1) (org_counts st),
        inflight := inflight st + 1\<rparr>"

text \<open>
  Lines 97 to 125, the block under the lock once config and state are fetched. An
  exception leaves the state as mutated so far, so the state is returned on both sides.
\<close>

definition admit_locked ::
  "ProviderConfig \<Rightarrow> ProviderState \<Rightarrow> string \<Rightarrow> real \<Rightarrow> (router_error + unit) \<times> ProviderState" where
  "admit_locked cfg st org now =
     (if \<not> enabled cfg then (Inl ProviderUnavailableError, st)
      else if circuit_open st now then (Inl ProviderCircuitOpenError, st)
      else if rollout_denies cfg org then (Inl ProviderUnavailableError, st)
      else
        let st1 = roll_window cfg st now
        in if global_quota_exceeded cfg st1 then (Inl ProviderQuotaExceededError, st1)
           else if org_quota_exceeded cfg st1 org then (Inl ProviderQuotaExceededError, st1)
           else if at_concurrency_limit cfg st1 then (Inl ProviderConcurrencyLimitError, st1)
           else (Inr (), count_admission st1 org))"

text \<open>
  Lines 91 to 125 on the router: the lookup of the provider, then the locked block. On
  admission the config fetched under the lock is returned; its client is invoked next.
\<close>

definition admit ::
  "ProviderRouter \<Rightarrow> Provider \<Rightarrow> string \<Rightarrow> real \<Rightarrow> (router_error + ProviderConfig) \<times> ProviderRouter" where
  "admit r p org now =
     (case configs r p of
        None \<Rightarrow> (Inl ValueError, r)
      | Some cfg \<Rightarrow>
          (case state r p of
             None \<Rightarrow> (Inl KeyError, r)
           | Some st \<Rightarrow>
               (case admit_locked cfg st org now of
                  (Inl e, st') \<Rightarrow> (Inl e, r\<lparr>state := (state r)(p \<mapsto> st')\<rparr>)
                | (Inr _, st') \<Rightarrow> (Inr cfg, r\<lparr>state := (state r)(p \<mapsto> st')\<rparr>))))"

text \<open>
  Lines 131 to 135, the handler of a client exception, on the state of the provider;
  \<open>now\<close> is the clock reading taken there. Lines 140 and 141 follow a normal return.
\<close>

definition record_failure :: "ProviderConfig \<Rightarrow> ProviderState \<Rightarrow> real \<Rightarrow> ProviderState" where
  "record_failure cfg st now =
     (let st1 = st\<lparr>inflight := max 0 (inflight st - 1),
                  failure_count := failure_count st + 1\<rparr>
      in if failure_count st1 \<ge> failure_threshold cfg
         then st1\<lparr>circuit_open_until := Some (now + cooldown_seconds cfg), failure_count := 0\<rparr>
         else st1)"

definition record_success :: "ProviderState \<Rightarrow> ProviderState" where
  "record_success st = st\<lparr>inflight := max 0 (inflight st - 1), failure_count := 0\<rparr>"

text \<open>
  Both completion sections subscript the dictionaries of a provider whose call was
  admitted; registrations are never removed, so the subscripts succeed, and for an
  unregistered provider the model leaves the router as it is.
\<close>

definition on_failure :: "ProviderRouter \<Rightarrow> Provider \<Rightarrow> real \<Rightarrow> ProviderRouter" where
  "on_failure r p now =
     (case (state r p, configs r p) of
        (Some st, Some cfg) \<Rightarrow> r\<lparr>state := (state r)(p \<mapsto> record_failure cfg st now)\<rparr>
      | _ \<Rightarrow> r)"

definition on_success :: "ProviderRouter \<Rightarrow> Provider \<Rightarrow> ProviderRouter" where
  "on_success r p =
     (case state r p of
        Some st \<Rightarrow> r\<lparr>state := (state r)(p \<mapsto> record_success st)\<rparr>
      | None \<Rightarrow> r)"

text \<open>
  One whole call of \<^verbatim>\<open>parse_with\<close> with no other call interleaved. \<open>invoke\<close> is what the
  client does when called with a source url, \<open>now\<close> the clock reading under the first
  lock and \<open>later\<close> the reading in the exception handler. The third component of the
  result lists the client invocations the call made.
\<close>

datatype client_outcome = Raised string | Returned "ParsedEvent list"

definition parse_with ::
  "ProviderRouter \<Rightarrow> Provider \<Rightarrow> string \<Rightarrow> string \<Rightarrow> real \<Rightarrow> (nat \<Rightarrow> string \<Rightarrow> client_outcome) \<Rightarrow> real
     \<Rightarrow> (router_error + ParsedEvent list) \<times> ProviderRouter \<times> (nat \<times> string) list" where
  "parse_with r p org url now invoke later =
     (case admit r p org now of
        (Inl e, r1) \<Rightarrow> (Inl e, r1, [])
      | (Inr cfg, r1) \<Rightarrow>
          (case invoke (client cfg) url of
             Raised msg \<Rightarrow> (Inl (ClientError msg), on_failure r1 p later, [(client cfg, url)])
           | Returned evs \<Rightarrow> (Inr evs, on_success r1 p, [(client cfg, url)])))"

section \<open>Interleaved calls\<close>

text \<open>
  The client call runs outside the lock, so the locked sections of concurrent calls
  interleave. A history is a list of atomic events: a registration, the admission
  section of a call, and the completion section of a call whose client raised or
  returned. Completions are not tied to earlier admissions, so the histories include
  every interleaving the program can produce.
\<close>

datatype event =
    Register Provider ProviderConfig real
  | Admission Provider string real
  | ClientRaised Provider real
  | ClientReturned Provider

fun step :: "ProviderRouter \<Rightarrow> event \<Rightarrow> ProviderRouter" where
  "step r (Register p cfg now) = register r p cfg now"
| "step r (Admission p org now) = snd (admit r p org now)"
| "step r (ClientRaised p now) = on_failure r p now"
| "step r (ClientReturned p) = on_success r p"

definition run :: "ProviderRouter \<Rightarrow> event list \<Rightarrow> ProviderRouter" where
  "run r evs = foldl step r evs"










section \<open>Sample data\<close>

text \<open>A running job stored under its id, an event of a given confidence, and a history.\<close>

definition sample_job :: ParseJob where
  "sample_job = \<lparr>job_id = ''j1'', org_id = ''org-1'', creator_id = ''user-1'', provider = OPENAI,
           source_url = ''https://a'', created_at = 0, status = RUNNING, events = [],
           error = None, metadata = []\<rparr>"

definition sample_memory :: memory where
  "sample_memory = \<lparr>objects = (\<lambda>_. sample_job), next_ref = 1, jobs = [(''j1'', 0)]\<rparr>"

definition sample_event :: "real \<Rightarrow> ParsedEvent" where
  "sample_event c = \<lparr>title = ''ok'', weekday = 1, start = ''09:00'', end_time = ''10:00'',
              location = None, assignees = [], confidence = c, tool_calls = []\<rparr>"

definition sample_history :: "event list" where
  "sample_history = [Register OPENAI ((default_config 0)\<lparr>quota_per_window := Some 2, concurrency_limit := Some 1\<rparr>) 0,
               Admission OPENAI ''org-1'' 1,
               Admission OPENAI ''org-2'' 2,
               ClientReturned OPENAI,
               Admission OPENAI ''org-2'' 3]"

text \<open>A client that raises on every call.\<close>

definition always_raises :: "nat \<Rightarrow> string \<Rightarrow> client_outcome" where
  "always_raises c url = Raised ''upstream failure''"

text \<open>
  Configs and routers for the scenarios below: a provider open to one organisation only
  whose breaker trips at the first failure, a provider with a quota of one request whose
  breaker trips at the first failure, and a provider whose breaker trips at the second
  failure and cools down for five seconds. \<open>failed_call\<close> is the router after one whole
  call whose client raised.
\<close>

definition rollout_config :: ProviderConfig where
  "rollout_config =
     (default_config 0)\<lparr>failure_threshold := 1,
        rollout := Some \<lparr>allow_by_default = False, allowlist = {''org-1''}, blocklist = {}\<rparr>\<rparr>"

definition tripped_router :: ProviderRouter where
  "tripped_router =
     fst (snd (parse_with (register new_router OPENAI rollout_config 0)
                 OPENAI ''org-1'' ''https://a'' 1 always_raises 2))"



definition breaker_config :: ProviderConfig where
  "breaker_config = (default_config 0)\<lparr>failure_threshold := 2, cooldown_seconds := 5\<rparr>"

definition failed_call :: "ProviderRouter \<Rightarrow> real \<Rightarrow> real \<Rightarrow> ProviderRouter" where
  "failed_call r now later =
     fst (snd (parse_with r OPENROUTER ''org-1'' ''https://a'' now always_raises later))"


section \<open>Properties of the job store and of review\<close>

lemma map_of_update_same: "map_of (AList.update k v al) k = Some v"
  by (simp add: update_conv')

text \<open>
  C6. For every job (a reference \<open>r\<close> into any memory) and every list of events,
  \<^verbatim>\<open>mark_success\<close> returns the same job with exactly that list attached and with status
  NEEDS_REVIEW if some event has confidence below 0.6, SUCCEEDED otherwise. Nothing
  else of the job changes, no other object changes, and the job is stored under its id.
\<close>

theorem mark_success_rule:
  "mark_success m r evs = (r', m') \<Longrightarrow>
     r' = r
     \<and> events (objects m' r) = evs
     \<and> status (objects m' r) =
         (if (\<exists>e \<in> set evs. confidence e < 0.6) then NEEDS_REVIEW else SUCCEEDED)
     \<and> objects m' r = (objects m r)\<lparr>events := evs, status := status (objects m' r)\<rparr>
     \<and> get m' (job_id (objects m r)) = Some r
     \<and> stored_record m' (job_id (objects m r)) = Some (objects m' r)
     \<and> (\<forall>r2. r2 \<noteq> r \<longrightarrow> objects m' r2 = objects m r2)"
  by (auto simp: mark_success_def update_def mutate_def mark_succeeded_def get_def
      stored_record_def list_ex_iff map_of_update_same Let_def)

theorem mark_success_rule_witness:
  "status (objects (snd (mark_success sample_memory 0 [sample_event 0.9, sample_event 0.55])) 0) = NEEDS_REVIEW
   \<and> status (objects (snd (mark_success sample_memory 0 [sample_event 0.9, sample_event 0.6])) 0) = SUCCEEDED"
  using mark_success_rule [of sample_memory 0 "[sample_event 0.9, sample_event 0.55]" 0 "snd (mark_success sample_memory 0 [sample_event 0.9, sample_event 0.55])"]
    mark_success_rule [of sample_memory 0 "[sample_event 0.9, sample_event 0.6]" 0 "snd (mark_success sample_memory 0 [sample_event 0.9, sample_event 0.6])"]
  by (simp add: mark_success_def sample_event_def)

text \<open>
  C10. With an empty event list \<^verbatim>\<open>mark_success\<close> sets the status to SUCCEEDED, for every
  job, and attaches the empty list.
\<close>

theorem mark_success_empty:
  "status (objects (snd (mark_success m r [])) r) = SUCCEEDED
   \<and> events (objects (snd (mark_success m r [])) r) = []"
  by (simp add: mark_success_def update_def mutate_def mark_succeeded_def)

text \<open>
  C7. \<^verbatim>\<open>review_job\<close> returns nothing and changes nothing for an unknown id; returns the
  job and changes nothing when its status is neither SUCCEEDED nor NEEDS_REVIEW; and
  otherwise returns the job with \<^verbatim>\<open>metadata["review"]\<close> set to "approved" and status
  SUCCEEDED for APPROVED, to "rejected" and status FAILED for REJECTED, the other
  metadata keys and fields kept and the job stored under its id.
\<close>

theorem review_job_rule:
  "(get m jid = None \<longrightarrow> review_job m jid d = (None, m))
   \<and> (\<forall>r. get m jid = Some r \<and> status (objects m r) \<notin> {SUCCEEDED, NEEDS_REVIEW}
         \<longrightarrow> review_job m jid d = (Some r, m))
   \<and> (\<forall>r. get m jid = Some r \<and> status (objects m r) \<in> {SUCCEEDED, NEEDS_REVIEW}
         \<longrightarrow> (\<exists>m'. review_job m jid d = (Some r, m')
               \<and> map_of (metadata (objects m' r)) ''review''
                   = Some (case d of APPROVED \<Rightarrow> ''approved'' | REJECTED \<Rightarrow> ''rejected'')
               \<and> status (objects m' r) = (case d of APPROVED \<Rightarrow> SUCCEEDED | REJECTED \<Rightarrow> FAILED)
               \<and> objects m' r = (objects m r)\<lparr>metadata := metadata (objects m' r),
                                               status := status (objects m' r)\<rparr>
               \<and> (\<forall>k. k \<noteq> ''review'' \<longrightarrow>
                     map_of (metadata (objects m' r)) k = map_of (metadata (objects m r)) k)
               \<and> get m' jid = Some r
               \<and> stored_record m' jid = Some (objects m' r)
               \<and> stored_record m' (job_id (objects m r)) = Some (objects m' r)))"
proof (intro conjI allI impI)
  show "review_job m jid d = (None, m)" if "get m jid = None"
    using that by (simp add: review_job_def)
next
  fix r
  assume "get m jid = Some r \<and> status (objects m r) \<notin> {SUCCEEDED, NEEDS_REVIEW}"
  then show "review_job m jid d = (Some r, m)"
    by (simp add: review_job_def)
next
  fix r
  assume a: "get m jid = Some r \<and> status (objects m r) \<in> {SUCCEEDED, NEEDS_REVIEW}"
  then have g: "map_of (jobs m) jid = Some r"
    by (simp add: get_def)
  show "\<exists>m'. review_job m jid d = (Some r, m')
               \<and> map_of (metadata (objects m' r)) ''review''
                   = Some (case d of APPROVED \<Rightarrow> ''approved'' | REJECTED \<Rightarrow> ''rejected'')
               \<and> status (objects m' r) = (case d of APPROVED \<Rightarrow> SUCCEEDED | REJECTED \<Rightarrow> FAILED)
               \<and> objects m' r = (objects m r)\<lparr>metadata := metadata (objects m' r),
                                               status := status (objects m' r)\<rparr>
               \<and> (\<forall>k. k \<noteq> ''review'' \<longrightarrow>
                     map_of (metadata (objects m' r)) k = map_of (metadata (objects m r)) k)
               \<and> get m' jid = Some r
               \<and> stored_record m' jid = Some (objects m' r)
               \<and> stored_record m' (job_id (objects m r)) = Some (objects m' r)"
  proof (cases d)
    case APPROVED
    with a g show ?thesis
      by (auto simp: review_job_def get_def update_def mutate_def stored_record_def
          update_conv' Let_def)
  next
    case REJECTED
    with a g show ?thesis
      by (auto simp: review_job_def get_def update_def mutate_def stored_record_def
          update_conv' Let_def)
  qed
qed

theorem review_job_rule_witness:
  "review_job sample_memory ''nope'' APPROVED = (None, sample_memory)
   \<and> review_job sample_memory ''j1'' APPROVED = (Some 0, sample_memory)
   \<and> status (objects (snd (review_job (snd (mark_success sample_memory 0 [])) ''j1'' REJECTED)) 0) = FAILED
   \<and> map_of (metadata (objects (snd (review_job (snd (mark_success sample_memory 0 [])) ''j1'' REJECTED)) 0)) ''review''
       = Some ''rejected''"
  using review_job_rule [of sample_memory "''nope''" APPROVED]
    review_job_rule [of sample_memory "''j1''" APPROVED]
    review_job_rule [of "snd (mark_success sample_memory 0 [])" "''j1''" REJECTED]
  by (auto simp: sample_memory_def sample_job_def get_def mark_success_def update_def mutate_def mark_succeeded_def)

text \<open>
  C8, as stated, fails: \<^verbatim>\<open>get\<close> returns the stored object itself. In the sample memory
  the job returned for id j1 is reference 0; calling \<^verbatim>\<open>mark_failed\<close> on it, with no call
  of \<^verbatim>\<open>update\<close>, changes the record stored under j1. \<^verbatim>\<open>list_for_org\<close> returns the same
  reference.
\<close>

theorem get_returns_alias_counterexample:
  "get sample_memory ''j1'' = Some 0
   \<and> stored_record sample_memory ''j1'' = Some sample_job
   \<and> list_for_org sample_memory ''org-1'' = [0]
   \<and> stored_record (mutate sample_memory 0 (mark_failed ''boom'')) ''j1'' = Some (mark_failed ''boom'' sample_job)
   \<and> stored_record (mutate sample_memory 0 (mark_failed ''boom'')) ''j1'' \<noteq> stored_record sample_memory ''j1''"
  by (simp add: sample_memory_def sample_job_def get_def stored_record_def mutate_def mark_failed_def
      list_for_org_def)

text \<open>
  C8, amended. \<^verbatim>\<open>get\<close> and \<^verbatim>\<open>list_for_org\<close> return the stored job objects themselves,
  not copies: a mutation \<open>f\<close> of a job returned by \<^verbatim>\<open>get\<close> is a mutation of the record
  stored under that id, and the jobs listed for an organisation are exactly the stored
  objects with that \<^verbatim>\<open>org_id\<close>. The keys of the dictionary are distinct.
\<close>

theorem reads_share_the_stored_object:
  assumes "distinct (map fst (jobs m))"
  shows "(\<forall>jid r. get m jid = Some r \<longrightarrow>
            stored_record m jid = Some (objects m r)
            \<and> stored_record (mutate m r f) jid = Some (f (objects m r))
            \<and> get (mutate m r f) jid = Some r)
       \<and> (\<forall>org r. r \<in> set (list_for_org m org) \<longleftrightarrow>
            (\<exists>jid. get m jid = Some r) \<and> org_id (objects m r) = org)"
  using assms
  by (auto simp: get_def stored_record_def mutate_def list_for_org_def
       dest: map_of_SomeD intro: rev_image_eqI)

theorem reads_share_the_stored_object_witness:
  "distinct (map fst (jobs sample_memory))
   \<and> get sample_memory ''j1'' = Some 0
   \<and> stored_record (mutate sample_memory 0 mark_running) ''j1'' = Some (mark_running sample_job)
   \<and> 0 \<in> set (list_for_org sample_memory ''org-1'')"
  using reads_share_the_stored_object [of sample_memory mark_running]
  by (simp add: sample_memory_def sample_job_def get_def)

section \<open>Properties of the provider router\<close>

lemma admit_locked_rejected:
  assumes "admit_locked cfg st org now = (Inl e, st')"
  shows "(e \<in> {ProviderUnavailableError, ProviderCircuitOpenError} \<and> st' = st)
       \<or> (e \<in> {ProviderQuotaExceededError, ProviderConcurrencyLimitError}
          \<and> st' = roll_window cfg st now)"
  using assms unfolding admit_locked_def Let_def
  by (simp split: if_splits)

lemma admit_rejected:
  assumes "admit r p org now = (Inl e, r')"
  shows "(configs r p = None \<and> e = ValueError \<and> r' = r)
       \<or> (\<exists>cfg. configs r p = Some cfg \<and> state r p = None \<and> e = KeyError \<and> r' = r)
       \<or> (\<exists>cfg st st'. configs r p = Some cfg \<and> state r p = Some st
            \<and> admit_locked cfg st org now = (Inl e, st')
            \<and> r' = r\<lparr>state := (state r)(p \<mapsto> st')\<rparr>)"
  using assms unfolding admit_def
  by (auto split: option.splits sum.splits prod.splits)

lemma router_same: "state r p = Some st \<Longrightarrow> r\<lparr>state := (state r)(p \<mapsto> st)\<rparr> = r"
  by (simp add: fun_upd_idem)

text \<open>
  C9. When the admission section of a \<^verbatim>\<open>parse_with\<close> call raises, the call fails with
  that error and makes no client invocation; configs and the states of other providers
  are untouched. For an unknown provider, a disabled provider, an open circuit and a
  rollout denial the router is unchanged. For a quota or concurrency failure the state
  of the provider is the one the quota and concurrency checks read: the state before
  the call with the window reset of lines 106 to 109 applied when the window had
  expired. In every case \<^verbatim>\<open>inflight\<close> is unchanged, and \<^verbatim>\<open>window_count\<close> and \<^verbatim>\<open>org_counts\<close>
  are unchanged or reset to zero and empty: no counter is incremented.
\<close>

theorem rejected_admission_keeps_counters:
  assumes "admit r p org now = (Inl e, r')"
  shows "parse_with r p org url now invoke later = (Inl e, r', [])
       \<and> configs r' = configs r
       \<and> (\<forall>q. q \<noteq> p \<longrightarrow> state r' q = state r q)
       \<and> (e \<in> {ValueError, KeyError, ProviderUnavailableError, ProviderCircuitOpenError}
            \<longrightarrow> r' = r)
       \<and> (e \<in> {ProviderQuotaExceededError, ProviderConcurrencyLimitError} \<longrightarrow>
            (\<exists>cfg st. configs r p = Some cfg \<and> state r p = Some st
               \<and> state r' p = Some (roll_window cfg st now)))
       \<and> (\<forall>st. state r p = Some st \<longrightarrow>
            (\<exists>st'. state r' p = Some st'
               \<and> inflight st' = inflight st
               \<and> failure_count st' = failure_count st
               \<and> circuit_open_until st' = circuit_open_until st
               \<and> (window_count st' = window_count st \<and> org_counts st' = org_counts st
                  \<or> window_count st' = 0 \<and> org_counts st' = [])))"
proof -
  have pw: "parse_with r p org url now invoke later = (Inl e, r', [])"
    using assms by (simp add: parse_with_def)
  from admit_rejected [OF assms] show ?thesis
  proof (elim disjE exE conjE)
    assume "configs r p = None" "e = ValueError" "r' = r"
    with pw show ?thesis by simp
  next
    fix cfg assume "configs r p = Some cfg" "state r p = None" "e = KeyError" "r' = r"
    with pw show ?thesis by simp
  next
    fix cfg st st'
    assume c: "configs r p = Some cfg" and s: "state r p = Some st"
      and a: "admit_locked cfg st org now = (Inl e, st')"
      and r': "r' = r\<lparr>state := (state r)(p \<mapsto> st')\<rparr>"
    from admit_locked_rejected [OF a] show ?thesis
    proof (elim disjE conjE)
      assume "e \<in> {ProviderUnavailableError, ProviderCircuitOpenError}" "st' = st"
      with pw c s r' show ?thesis by (auto simp: router_same)
    next
      assume "e \<in> {ProviderQuotaExceededError, ProviderConcurrencyLimitError}"
        "st' = roll_window cfg st now"
      with pw c s r' show ?thesis by (auto simp: roll_window_def reset_window_def)
    qed
  qed
qed

lemmas router_simps =
  run_def register_def admit_def admit_locked_def on_failure_def on_success_def
  record_failure_def record_success_def new_router_def default_config_def fresh_state_def
  circuit_open_def rollout_denies_def is_allowed_def window_expired_def reset_window_def
  roll_window_def global_quota_exceeded_def org_quota_exceeded_def at_concurrency_limit_def
  count_admission_def org_count_def parse_with_def Let_def

lemma sample_history_state:
  "state (run new_router sample_history) OPENAI =
     Some \<lparr>window_started_at = 0, window_count = 2, org_counts = [(''org-1'', 1), (''org-2'', 1)],
           inflight = 1, failure_count = 0, circuit_open_until = None\<rparr>"
  by (simp add: sample_history_def router_simps)

lemma sample_history_rejects:
  "admit (run new_router sample_history) OPENAI ''org-1'' 100
     = (Inl ProviderConcurrencyLimitError,
        snd (admit (run new_router sample_history) OPENAI ''org-1'' 100))"
  by (simp add: sample_history_def router_simps)

theorem rejected_admission_keeps_counters_witness:
  "admit (run new_router sample_history) OPENAI ''org-1'' 100
     = (Inl ProviderConcurrencyLimitError,
        snd (admit (run new_router sample_history) OPENAI ''org-1'' 100))
   \<and> parse_with (run new_router sample_history) OPENAI ''org-1'' ''https://a'' 100 always_raises 101
     = (Inl ProviderConcurrencyLimitError,
        snd (admit (run new_router sample_history) OPENAI ''org-1'' 100), [])
   \<and> state (snd (admit (run new_router sample_history) OPENAI ''org-1'' 100)) OPENAI
     = Some \<lparr>window_started_at = 100, window_count = 0, org_counts = [], inflight = 1,
             failure_count = 0, circuit_open_until = None\<rparr>"
proof -
  have "state (snd (admit (run new_router sample_history) OPENAI ''org-1'' 100)) OPENAI
     = Some \<lparr>window_started_at = 100, window_count = 0, org_counts = [], inflight = 1,
             failure_count = 0, circuit_open_until = None\<rparr>"
    by (simp add: sample_history_def router_simps)
  then show ?thesis
    using rejected_admission_keeps_counters [OF sample_history_rejects,
        of "''https://a''" always_raises 101] sample_history_rejects
    by simp
qed

subsection \<open>Histories\<close>

lemma run_Nil: "run r [] = r"
  by (simp add: run_def)


lemma run_snoc: "run r (es @ [e]) = step (run r es) e"
  by (simp add: run_def)

lemma run_append: "run r (es @ es') = run (run r es) es'"
  by (simp add: run_def)

subsection \<open>What one event does to one provider\<close>

lemma admit_state:
  "state (snd (admit r p org now)) q =
     (case (configs r p, state r p) of
        (Some cfg, Some st) \<Rightarrow>
          if q = p then Some (snd (admit_locked cfg st org now)) else state r q
      | _ \<Rightarrow> state r q)"
  by (auto simp: admit_def split: option.splits sum.splits prod.splits)

lemma admit_configs: "configs (snd (admit r p org now)) = configs r"
  by (auto simp: admit_def split: option.splits sum.splits prod.splits)

lemma on_failure_state:
  "state (on_failure r p now) q =
     (case (state r p, configs r p) of
        (Some st, Some cfg) \<Rightarrow> if q = p then Some (record_failure cfg st now) else state r q
      | _ \<Rightarrow> state r q)"
  by (auto simp: on_failure_def split: option.splits)

lemma on_failure_configs: "configs (on_failure r p now) = configs r"
  by (auto simp: on_failure_def split: option.splits)

lemma on_success_state:
  "state (on_success r p) q =
     (case state r p of
        Some st \<Rightarrow> if q = p then Some (record_success st) else state r q
      | None \<Rightarrow> state r q)"
  by (auto simp: on_success_def split: option.splits)

lemma on_success_configs: "configs (on_success r p) = configs r"
  by (auto simp: on_success_def split: option.splits)

text \<open>
  Every event either leaves the config and state of a provider alone, registers it
  afresh, or applies one of the three locked sections to its state under its config.
\<close>

lemma step_cases:
  assumes "configs (step r e) p = Some cfg" and "state (step r e) p = Some st'"
  shows "(configs r p = Some cfg \<and> state r p = Some st')
       \<or> (\<exists>now. e = Register p cfg now \<and> st' = fresh_state now)
       \<or> (\<exists>st org now. e = Admission p org now \<and> configs r p = Some cfg \<and> state r p = Some st
             \<and> st' = snd (admit_locked cfg st org now))
       \<or> (\<exists>st now. e = ClientRaised p now \<and> configs r p = Some cfg \<and> state r p = Some st
             \<and> st' = record_failure cfg st now)
       \<or> (\<exists>st. e = ClientReturned p \<and> configs r p = Some cfg \<and> state r p = Some st
             \<and> st' = record_success st)"
proof (cases e)
  case (Register q c now)
  with assms show ?thesis by (auto simp: register_def split: if_splits)
next
  case (Admission q org now)
  with assms show ?thesis
    by (auto simp: admit_state admit_configs split: option.splits if_splits)
next
  case (ClientRaised q now)
  with assms show ?thesis
    by (auto simp: on_failure_state on_failure_configs split: option.splits if_splits)
next
  case (ClientReturned q)
  with assms show ?thesis
    by (auto simp: on_success_state on_success_configs split: option.splits if_splits)
qed

text \<open>A property of config and state kept by the locked sections holds along every history.\<close>

lemma run_invariant:
  assumes fresh: "\<And>cfg now. I cfg (fresh_state now)"
    and adm: "\<And>cfg st org now. I cfg st \<Longrightarrow> I cfg (snd (admit_locked cfg st org now))"
    and fail: "\<And>cfg st now. I cfg st \<Longrightarrow> I cfg (record_failure cfg st now)"
    and succ: "\<And>cfg st. I cfg st \<Longrightarrow> I cfg (record_success st)"
  shows "configs (run new_router evs) p = Some cfg \<Longrightarrow> state (run new_router evs) p = Some st
           \<Longrightarrow> I cfg st"
proof (induction evs arbitrary: cfg st rule: rev_induct)
  case Nil
  then show ?case by (simp add: run_Nil new_router_def)
next
  case (snoc e evs)
  from snoc.prems have c: "configs (step (run new_router evs) e) p = Some cfg"
    and s: "state (step (run new_router evs) e) p = Some st"
    by (simp_all add: run_snoc)
  from step_cases [OF c s] show ?case
    using snoc.IH fresh adm fail succ by blast
qed

subsection \<open>Counters\<close>

lemma sum_snd_update:
  "sum_list (map snd (AList.update k v al))
     = sum_list (map snd al) - (case map_of al k of None \<Rightarrow> 0 | Some w \<Rightarrow> w) + (v::int)"
  by (induction al) auto

lemma admit_locked_cases:
  "snd (admit_locked cfg st org now) = st
   \<or> snd (admit_locked cfg st org now) = roll_window cfg st now
   \<or> snd (admit_locked cfg st org now) = count_admission (roll_window cfg st now) org
      \<and> \<not> global_quota_exceeded cfg (roll_window cfg st now)
      \<and> \<not> org_quota_exceeded cfg (roll_window cfg st now) org
      \<and> \<not> at_concurrency_limit cfg (roll_window cfg st now)"
  by (simp add: admit_locked_def Let_def)

lemma registered_together:
  "(state (run new_router evs) p = None) = (configs (run new_router evs) p = None)"
proof (induction evs rule: rev_induct)
  case Nil
  then show ?case by (simp add: run_Nil new_router_def)
next
  case (snoc e evs)
  then show ?case
    by (cases e)
      (auto simp: run_snoc register_def admit_state admit_configs on_failure_state
        on_failure_configs on_success_state on_success_configs split: option.splits)
qed

lemma counts_agree_admit:
  assumes "window_count st = sum_list (map snd (org_counts st)) \<and> distinct (map fst (org_counts st))"
  shows "window_count (snd (admit_locked cfg st org now))
           = sum_list (map snd (org_counts (snd (admit_locked cfg st org now))))
         \<and> distinct (map fst (org_counts (snd (admit_locked cfg st org now))))"
  using assms admit_locked_cases [of cfg st org now]
  by (auto simp: roll_window_def reset_window_def count_admission_def sum_snd_update
      org_count_def distinct_update split: option.splits)

text \<open>
  C5. In every state of a provider reached from the new router by registrations and by
  the locked sections of \<^verbatim>\<open>parse_with\<close> calls, in any interleaving, \<^verbatim>\<open>window_count\<close> is the
  sum of the values of \<^verbatim>\<open>org_counts\<close>, each organisation having one entry.
\<close>

theorem window_count_is_sum_of_org_counts:
  assumes "state (run new_router evs) p = Some st"
  shows "window_count st = sum_list (map snd (org_counts st))
       \<and> distinct (map fst (org_counts st))"
proof -
  from assms obtain cfg where c: "configs (run new_router evs) p = Some cfg"
    using registered_together [of evs p] by auto
  show ?thesis
  proof (rule run_invariant
      [where I = "\<lambda>cfg st. window_count st = sum_list (map snd (org_counts st))
                            \<and> distinct (map fst (org_counts st))", OF _ _ _ _ c assms])
    show "\<And>cfg now. window_count (fresh_state now) = sum_list (map snd (org_counts (fresh_state now)))
        \<and> distinct (map fst (org_counts (fresh_state now)))"
      by (simp add: fresh_state_def)
  next
    show "\<And>cfg st org now.
       window_count st = sum_list (map snd (org_counts st)) \<and> distinct (map fst (org_counts st)) \<Longrightarrow>
       window_count (snd (admit_locked cfg st org now))
           = sum_list (map snd (org_counts (snd (admit_locked cfg st org now))))
         \<and> distinct (map fst (org_counts (snd (admit_locked cfg st org now))))"
      by (rule counts_agree_admit)
  next
    show "\<And>cfg st now.
       window_count st = sum_list (map snd (org_counts st)) \<and> distinct (map fst (org_counts st)) \<Longrightarrow>
       window_count (record_failure cfg st now)
           = sum_list (map snd (org_counts (record_failure cfg st now)))
         \<and> distinct (map fst (org_counts (record_failure cfg st now)))"
      by (simp add: record_failure_def Let_def)
  next
    show "\<And>cfg st.
       window_count st = sum_list (map snd (org_counts st)) \<and> distinct (map fst (org_counts st)) \<Longrightarrow>
       window_count (record_success st) = sum_list (map snd (org_counts (record_success st)))
         \<and> distinct (map fst (org_counts (record_success st)))"
      by (simp add: record_success_def)
  qed
qed

theorem window_count_is_sum_of_org_counts_witness:
  "state (run new_router sample_history) OPENAI =
     Some \<lparr>window_started_at = 0, window_count = 2, org_counts = [(''org-1'', 1), (''org-2'', 1)],
           inflight = 1, failure_count = 0, circuit_open_until = None\<rparr>
   \<and> (2::int) = sum_list (map snd [(''org-1'', 1), (''org-2'', 1::int)])"
  using window_count_is_sum_of_org_counts [OF sample_history_state] sample_history_state
  by simp

subsection \<open>Concurrency\<close>



text \<open>What a call does when it reaches a given check.\<close>

lemma parse_with_rejected:
  assumes "configs r p = Some cfg" and "state r p = Some st"
    and "admit_locked cfg st org now = (Inl e, st')"
  shows "parse_with r p org url now invoke later = (Inl e, r\<lparr>state := (state r)(p \<mapsto> st')\<rparr>, [])"
  using assms by (simp add: parse_with_def admit_def)







subsection \<open>Rollout\<close>

lemma tripped_router_eval:
  "parse_with (register new_router OPENAI rollout_config 0) OPENAI ''org-1'' ''https://a'' 1 always_raises 2
     = (Inl (ClientError ''upstream failure''), tripped_router, [(0, ''https://a'')])
   \<and> configs tripped_router OPENAI = Some rollout_config
   \<and> state tripped_router OPENAI =
       Some \<lparr>window_started_at = 0, window_count = 1, org_counts = [(''org-1'', 1)],
             inflight = 0, failure_count = 0, circuit_open_until = Some 32\<rparr>"
  by (simp add: tripped_router_def rollout_config_def always_raises_def router_simps)

lemma rollout_config_rollout:
  "rollout rollout_config = Some \<lparr>allow_by_default = False, allowlist = {''org-1''}, blocklist = {}\<rparr>"
  by (simp add: rollout_config_def)

lemma registered_rollout_config:
  "configs (register new_router OPENAI rollout_config 0) OPENAI = Some rollout_config
   \<and> state (register new_router OPENAI rollout_config 0) OPENAI = Some (fresh_state 0)"
  by (simp add: register_def)

text \<open>
  C3, as stated, fails in its last part: the circuit check comes before the rollout
  check. The provider admits only org-1 and its breaker trips at the first failure; after
  one failed call of org-1 the circuit is open, and a call of org-2, which the rollout
  denies, fails with CIRCUIT_OPEN, not PROVIDER_UNAVAILABLE.
\<close>

theorem rollout_denial_counterexample:
  "parse_with (register new_router OPENAI rollout_config 0) OPENAI ''org-1'' ''https://a'' 1 always_raises 2
     = (Inl (ClientError ''upstream failure''), tripped_router, [(0, ''https://a'')])
   \<and> map_option rollout (configs tripped_router OPENAI)
       = Some (Some \<lparr>allow_by_default = False, allowlist = {''org-1''}, blocklist = {}\<rparr>)
   \<and> \<not> is_allowed \<lparr>allow_by_default = False, allowlist = {''org-1''}, blocklist = {}\<rparr> ''org-2''
   \<and> parse_with tripped_router OPENAI ''org-2'' ''https://c'' 3 always_raises 4
       = (Inl ProviderCircuitOpenError, tripped_router, [])"
proof -
  have "parse_with tripped_router OPENAI ''org-2'' ''https://c'' 3 always_raises 4
       = (Inl ProviderCircuitOpenError, tripped_router, [])"
    using tripped_router_eval
    by (simp add: parse_with_def admit_def admit_locked_def rollout_config_def default_config_def
        circuit_open_def router_same)
  then show ?thesis
    using tripped_router_eval by (simp add: rollout_config_def is_allowed_def)
qed

text \<open>
  C3, amended. For a registered provider whose config has a rollout, the rollout allows
  an organisation exactly when \<^verbatim>\<open>allow_by_default\<close> is true and the organisation is not in
  the blocklist, or \<^verbatim>\<open>allow_by_default\<close> is false and it is in the allowlist. A call of an
  organisation that is not allowed always fails with the router unchanged and no client
  invoked: with CIRCUIT_OPEN when the provider is enabled and its circuit is open (the
  circuit check comes first), with PROVIDER_UNAVAILABLE in every other case. For an
  allowed organisation the admission section behaves as it does for the same config
  without a rollout.
\<close>

theorem rollout_gate:
  assumes "configs r p = Some cfg" and "state r p = Some st" and "rollout cfg = Some ro"
  shows "(is_allowed ro org \<longleftrightarrow>
            (allow_by_default ro \<and> org \<notin> blocklist ro)
            \<or> (\<not> allow_by_default ro \<and> org \<in> allowlist ro))
       \<and> (\<not> is_allowed ro org \<and> \<not> (enabled cfg \<and> circuit_open st now) \<longrightarrow>
            parse_with r p org url now invoke later = (Inl ProviderUnavailableError, r, []))
       \<and> (\<not> is_allowed ro org \<and> enabled cfg \<and> circuit_open st now \<longrightarrow>
            parse_with r p org url now invoke later = (Inl ProviderCircuitOpenError, r, []))
       \<and> (is_allowed ro org \<longrightarrow>
            admit_locked cfg st org now = admit_locked (cfg\<lparr>rollout := None\<rparr>) st org now)"
proof (intro conjI impI)
  show "is_allowed ro org \<longleftrightarrow>
            (allow_by_default ro \<and> org \<notin> blocklist ro)
            \<or> (\<not> allow_by_default ro \<and> org \<in> allowlist ro)"
    by (auto simp: is_allowed_def)
next
  assume "\<not> is_allowed ro org \<and> \<not> (enabled cfg \<and> circuit_open st now)"
  with assms(3) have "admit_locked cfg st org now = (Inl ProviderUnavailableError, st)"
    by (auto simp: admit_locked_def rollout_denies_def)
  from parse_with_rejected [OF assms(1,2) this]
  show "parse_with r p org url now invoke later = (Inl ProviderUnavailableError, r, [])"
    using assms(2) by (simp add: router_same)
next
  assume "\<not> is_allowed ro org \<and> enabled cfg \<and> circuit_open st now"
  then have "admit_locked cfg st org now = (Inl ProviderCircuitOpenError, st)"
    by (simp add: admit_locked_def)
  from parse_with_rejected [OF assms(1,2) this]
  show "parse_with r p org url now invoke later = (Inl ProviderCircuitOpenError, r, [])"
    using assms(2) by (simp add: router_same)
next
  assume "is_allowed ro org"
  with assms(3) show "admit_locked cfg st org now = admit_locked (cfg\<lparr>rollout := None\<rparr>) st org now"
    by (simp add: admit_locked_def rollout_denies_def roll_window_def window_expired_def
        global_quota_exceeded_def org_quota_exceeded_def at_concurrency_limit_def Let_def)
qed

theorem rollout_gate_witness:
  "configs (register new_router OPENAI rollout_config 0) OPENAI = Some rollout_config
   \<and> state (register new_router OPENAI rollout_config 0) OPENAI = Some (fresh_state 0)
   \<and> rollout rollout_config = Some \<lparr>allow_by_default = False, allowlist = {''org-1''}, blocklist = {}\<rparr>
   \<and> \<not> is_allowed \<lparr>allow_by_default = False, allowlist = {''org-1''}, blocklist = {}\<rparr> ''org-2''
   \<and> \<not> circuit_open (fresh_state 0) 1
   \<and> parse_with (register new_router OPENAI rollout_config 0) OPENAI ''org-2'' ''https://c'' 1 always_raises 2
       = (Inl ProviderUnavailableError, register new_router OPENAI rollout_config 0, [])
   \<and> is_allowed \<lparr>allow_by_default = False, allowlist = {''org-1''}, blocklist = {}\<rparr> ''org-1''
   \<and> admit_locked rollout_config (fresh_state 0) ''org-1'' 1
       = admit_locked (rollout_config\<lparr>rollout := None\<rparr>) (fresh_state 0) ''org-1'' 1
   \<and> enabled rollout_config
   \<and> circuit_open \<lparr>window_started_at = 0, window_count = 1, org_counts = [(''org-1'', 1)],
             inflight = 0, failure_count = 0, circuit_open_until = Some 32\<rparr> 31
   \<and> parse_with tripped_router OPENAI ''org-2'' ''https://c'' 31 always_raises 32
       = (Inl ProviderCircuitOpenError, tripped_router, [])"
  using rollout_gate [OF conjunct1 [OF registered_rollout_config]
      conjunct2 [OF registered_rollout_config] rollout_config_rollout,
      of "''org-2''" 1 "''https://c''" always_raises 2]
    rollout_gate [OF conjunct1 [OF registered_rollout_config]
      conjunct2 [OF registered_rollout_config] rollout_config_rollout,
      of "''org-1''" 1 "''https://c''" always_raises 2]
    rollout_gate [OF conjunct1 [OF conjunct2 [OF tripped_router_eval]]
      conjunct2 [OF conjunct2 [OF tripped_router_eval]] rollout_config_rollout,
      of "''org-2''" 31 "''https://c''" always_raises 32]
    registered_rollout_config rollout_config_rollout
  by (simp add: is_allowed_def circuit_open_def fresh_state_def rollout_config_def
      default_config_def)

subsection \<open>Quotas\<close>




























subsection \<open>The circuit breaker\<close>





lemma breaker_state_2:
  "state (failed_call (failed_call (register new_router OPENROUTER breaker_config 0) 0 1) 2 3) OPENROUTER
     = Some \<lparr>window_started_at = 0, window_count = 2, org_counts = [(''org-1'', 2)],
             inflight = 0, failure_count = 0, circuit_open_until = Some 8\<rparr>"
  by (simp add: failed_call_def breaker_config_def always_raises_def router_simps)



lemma registered_breaker_config:
  "configs (register new_router OPENROUTER breaker_config 0) OPENROUTER = Some breaker_config
   \<and> state (register new_router OPENROUTER breaker_config 0) OPENROUTER = Some (fresh_state 0)"
  by (simp add: register_def)




end
